theory Spec2Isabelle
  imports Main
begin

section \<open>FX.js: a lazy tree of reactive nodes bound to DOM elements\<close>

text \<open>
  The development embeds \<^verbatim>\<open>src/FX.js\<close>: the root proxy \<^verbatim>\<open>fx\<close>, \<^verbatim>\<open>createReactiveNode\<close> with
  its get and set traps and the binder proxy behind \<^verbatim>\<open>$\<close>, \<^verbatim>\<open>bindDOM\<close>, the two
  synchronizers and the three inference helpers. Mutation is explicit state passing, a
  thrown exception is the outcome \<open>Throw\<close> together with the state reached when it was
  thrown, objects live in a store indexed by addresses, so that two references to one
  object are two copies of one address.
\<close>

subsection \<open>Values\<close>

text \<open>
  The values client code assigns and elements hold: the primitives (numbers are the
  integers) and plain objects, an object being the list of its own enumerable
  string-keyed pairs in the order \<^verbatim>\<open>Object.entries\<close> reports them, with string values.
\<close>

datatype jsval =
    Undefined
  | Null
  | Boolean bool
  | Number int
  | Str string
  | Obj "(string \<times> string) list"

text \<open>\<^verbatim>\<open>!x\<close> and \<^verbatim>\<open>if (x)\<close> go through the language's conversion to a boolean.\<close>

fun ToBoolean :: "jsval \<Rightarrow> bool" where
  "ToBoolean Undefined = False"
| "ToBoolean Null = False"
| "ToBoolean (Boolean b) = b"
| "ToBoolean (Number n) = (n \<noteq> 0)"
| "ToBoolean (Str s) = (s \<noteq> [])"
| "ToBoolean (Obj kvs) = True"

datatype error =
    ReferenceError string
  | TypeError string
  | SyntaxError string
  | InvalidCharacterError string

datatype 'a outcome = Return 'a | Throw error

text \<open>
  A reactive node is reached in two ways: through the proxy that \<^verbatim>\<open>createReactiveNode\<close>
  returns, whose traps intercept reads and writes, or as the proxy's target, the plain
  object the traps receive in their first parameter. Both name the same stored object.
\<close>

datatype reference = Proxy nat | Raw nat

fun address :: "reference \<Rightarrow> nat" where
  "address (Proxy n) = n"
| "address (Raw n) = n"

subsection \<open>Elements\<close>

text \<open>
  The listener that \<^verbatim>\<open>bindDOM\<close> attaches is the closure
  \<^verbatim>\<open>() => { node.value = getElementValue(element); }\<close>; it is represented by the two
  variables it closes over.
\<close>

datatype listener = Listener reference nat

text \<open>
  An element is a host object: the properties the script reads (\<^verbatim>\<open>tagName\<close>, \<^verbatim>\<open>type\<close>,
  \<^verbatim>\<open>value\<close>, \<^verbatim>\<open>checked\<close>, \<^verbatim>\<open>selectedIndex\<close>, \<^verbatim>\<open>innerHTML\<close>; a property the element's
  interface lacks reads as \<^verbatim>\<open>undefined\<close>), its attributes by name, and the listeners
  registered on it, each with its event type, in registration order. Two more components
  say how the host treats the element in \<^verbatim>\<open>setAttribute\<close>: \<open>html\<close> holds for an HTML
  element of an HTML document, on which attribute names are put in ASCII lower case, and
  \<open>valid_name\<close> is the host's test of an attribute name, whose failure is an
  InvalidCharacterError.
\<close>

record element =
  props :: "string \<rightharpoonup> jsval"
  attributes :: "string \<rightharpoonup> string"
  listeners :: "(string \<times> listener) list"
  html :: bool
  valid_name :: "string \<Rightarrow> bool"

definition prop_of :: "element \<Rightarrow> string \<Rightarrow> jsval" where
  "prop_of e p = (case props e p of Some v \<Rightarrow> v | None \<Rightarrow> Undefined)"

subsection \<open>Binding-type and event inference\<close>

definition inferBindingType :: "element \<Rightarrow> string" where
  "inferBindingType element =
     (if prop_of element ''tagName'' = Str ''INPUT'' \<or> prop_of element ''tagName'' = Str ''TEXTAREA''
      then ''value''
      else if prop_of element ''tagName'' = Str ''SELECT'' then ''selectedIndex''
      else if prop_of element ''type'' = Str ''checkbox'' \<or> prop_of element ''type'' = Str ''radio''
      then ''checked''
      else ''innerHTML'')"

definition inferEventType :: "element \<Rightarrow> string" where
  "inferEventType element =
     (if prop_of element ''tagName'' = Str ''INPUT'' \<or> prop_of element ''tagName'' = Str ''TEXTAREA''
      then ''input''
      else if prop_of element ''tagName'' = Str ''SELECT'' then ''change''
      else if prop_of element ''type'' = Str ''checkbox'' \<or> prop_of element ''type'' = Str ''radio''
      then ''change''
      else ''input'')"

definition getElementValue :: "element \<Rightarrow> jsval" where
  "getElementValue element =
     (let ty = inferBindingType element in
      if ty = ''value'' then prop_of element ''value''
      else if ty = ''checked'' then prop_of element ''checked''
      else if ty = ''selectedIndex'' then prop_of element ''selectedIndex''
      else prop_of element ''innerHTML'')"

subsection \<open>The store\<close>

text \<open>
  The target of a reactive node is the object literal
  \<^verbatim>\<open>{ value: null, attr: {}, DOM }\<close>. Its \<^verbatim>\<open>DOM\<close> property holds the array of bound
  elements until client code assigns something else to it through the set trap's last
  branch; properties of other names that were assigned that way are kept in \<open>other\<close>.
\<close>

datatype bound = Array "nat list" | Overwritten jsval

record target =
  value' :: jsval
  attr :: jsval
  DOM :: bound
  other :: "string \<rightharpoonup> jsval"

text \<open>What a property read can return besides a value.\<close>

datatype result =
    Value jsval
  | Node reference
  | Binder nat
  | Elements "nat list"
  | Builtin string

fun truthy :: "result \<Rightarrow> bool" where
  "truthy (Value v) = ToBoolean v"
| "truthy (Node r) = True"
| "truthy (Binder n) = True"
| "truthy (Elements es) = True"
| "truthy (Builtin f) = True"

text \<open>
  \<open>root\<close> holds the own properties of the object behind \<^verbatim>\<open>fx\<close>, \<open>heap\<close> the targets
  of the nodes created so far, at the addresses below \<open>allocated\<close>, and \<open>elements\<close>
  the elements of the page.
\<close>

record state =
  root :: "string \<rightharpoonup> result"
  heap :: "nat \<Rightarrow> target"
  allocated :: nat
  elements :: "nat \<Rightarrow> element"

text \<open>
  Both \<^verbatim>\<open>{}\<close> behind \<^verbatim>\<open>fx\<close> and a node's target are ordinary objects: a name that is
  not an own property is looked up in \<^verbatim>\<open>Object.prototype\<close>, whose members are all
  truthy (functions, and the prototype object itself under \<^verbatim>\<open>__proto__\<close>).
\<close>

definition Object_prototype :: "string list" where
  "Object_prototype =
     [''constructor'', ''hasOwnProperty'', ''isPrototypeOf'', ''propertyIsEnumerable'',
      ''toLocaleString'', ''toString'', ''valueOf'', ''__proto__'',
      ''__defineGetter__'', ''__defineSetter__'', ''__lookupGetter__'', ''__lookupSetter__'']"

definition inherited :: "string \<Rightarrow> result" where
  "inherited p = (if p \<in> set Object_prototype then Builtin p else Value Undefined)"

text \<open>
  \<^verbatim>\<open>target[prop]\<close> and \<^verbatim>\<open>target[prop] = value\<close> on a node's target. (An assignment to
  \<^verbatim>\<open>__proto__\<close> would replace the prototype; the model stores it like any other name.)
\<close>

definition get_prop :: "target \<Rightarrow> string \<Rightarrow> result" where
  "get_prop t p =
     (if p = ''value'' then Value (value' t)
      else if p = ''attr'' then Value (attr t)
      else if p = ''DOM'' then (case DOM t of Array es \<Rightarrow> Elements es | Overwritten v \<Rightarrow> Value v)
      else (case other t p of Some v \<Rightarrow> Value v | None \<Rightarrow> inherited p))"

definition set_prop :: "target \<Rightarrow> string \<Rightarrow> jsval \<Rightarrow> target" where
  "set_prop t p v =
     (if p = ''value'' then t\<lparr>value' := v\<rparr>
      else if p = ''attr'' then t\<lparr>attr := v\<rparr>
      else if p = ''DOM'' then t\<lparr>DOM := Overwritten v\<rparr>
      else t\<lparr>other := (other t)(p \<mapsto> v)\<rparr>)"

definition store :: "nat \<Rightarrow> string \<Rightarrow> jsval \<Rightarrow> state \<Rightarrow> state" where
  "store n p v s = s\<lparr>heap := (heap s)(n := set_prop (heap s n) p v)\<rparr>"

text \<open>\<^verbatim>\<open>xs.forEach(f)\<close>: the callback runs on each entry in order; an exception ends the scan.\<close>

fun forEach :: "('a \<Rightarrow> 's \<Rightarrow> unit outcome \<times> 's) \<Rightarrow> 'a list \<Rightarrow> 's \<Rightarrow> unit outcome \<times> 's" where
  "forEach f [] s = (Return (), s)"
| "forEach f (x # xs) s =
     (case f x s of
        (Return u, s') \<Rightarrow> forEach f xs s'
      | (Throw e, s') \<Rightarrow> (Throw e, s'))"

subsection \<open>The DOM synchronizer\<close>

text \<open>
  \<^verbatim>\<open>updateDOMValues\<close> calls \<^verbatim>\<open>updateDOM(element, type, node.value)\<close>, and the repository
  declares no \<^verbatim>\<open>updateDOM\<close>: no function, variable or parameter of that name is in
  scope. Evaluating the call resolves the identifier first, which fails.
\<close>

definition updateDOM :: "nat \<Rightarrow> string \<Rightarrow> jsval \<Rightarrow> state \<Rightarrow> unit outcome \<times> state" where
  "updateDOM element ty v s = (Throw (ReferenceError ''updateDOM''), s)"

text \<open>
  A \<^verbatim>\<open>DOM\<close> property that no longer holds the array has none of the array's methods:
  calling \<^verbatim>\<open>forEach\<close> or \<^verbatim>\<open>push\<close> on a value of \<open>jsval\<close> is a TypeError. (A string
  has \<^verbatim>\<open>includes\<close>; the scan of a bind over such a node fails at \<^verbatim>\<open>push\<close>, unless the
  string contains the host's string form of the element, which the model leaves out.)
\<close>

definition updateDOMValues :: "nat \<Rightarrow> state \<Rightarrow> unit outcome \<times> state" where
  "updateDOMValues node s =
     (case DOM (heap s node) of
        Overwritten d \<Rightarrow> (Throw (TypeError ''node.DOM.forEach''), s)
      | Array es \<Rightarrow>
          forEach (\<lambda>element s. updateDOM element (inferBindingType (elements s element))
                                   (value' (heap s node)) s) es s)"

text \<open>
  \<^verbatim>\<open>Object.entries\<close> throws on \<^verbatim>\<open>undefined\<close> and \<^verbatim>\<open>null\<close>, finds no pair in a boolean or a
  number, and enumerates a string by index.
\<close>

fun digits :: "nat \<Rightarrow> string" where
  "digits n = (if n < 10 then [''0123456789'' ! n] else digits (n div 10) @ [''0123456789'' ! (n mod 10)])"

fun Object_entries :: "jsval \<Rightarrow> error + (string \<times> string) list" where
  "Object_entries Undefined = Inl (TypeError ''Object.entries'')"
| "Object_entries Null = Inl (TypeError ''Object.entries'')"
| "Object_entries (Boolean b) = Inr []"
| "Object_entries (Number n) = Inr []"
| "Object_entries (Str s) = Inr (zip (map digits [0..<length s]) (map (\<lambda>c. [c]) s))"
| "Object_entries (Obj kvs) = Inr kvs"

text \<open>
  \<^verbatim>\<open>element.setAttribute(key, value)\<close> is the host's. It first tests the name and throws
  an InvalidCharacterError for one that is not valid; on an HTML element it then puts the
  name in ASCII lower case; and it sets the attribute of that name, replacing the value of
  an attribute the element already has.
\<close>

definition ascii_lowercase :: "string \<Rightarrow> string" where
  "ascii_lowercase k =
     map (\<lambda>c. case map_of (zip ''ABCDEFGHIJKLMNOPQRSTUVWXYZ'' ''abcdefghijklmnopqrstuvwxyz'') c of
                 Some d \<Rightarrow> d
               | None \<Rightarrow> c) k"

definition attribute_name :: "element \<Rightarrow> string \<Rightarrow> string" where
  "attribute_name e k = (if html e then ascii_lowercase k else k)"

definition setAttribute :: "nat \<Rightarrow> string \<Rightarrow> string \<Rightarrow> state \<Rightarrow> unit outcome \<times> state" where
  "setAttribute element k v s =
     (if \<not> valid_name (elements s element) k then (Throw (InvalidCharacterError k), s)
      else (Return (),
            s\<lparr>elements := (elements s)
                 (element := (elements s element)
                    \<lparr>attributes := (attributes (elements s element))
                       (attribute_name (elements s element) k \<mapsto> v)\<rparr>)\<rparr>))"

definition updateDOMAttributes :: "nat \<Rightarrow> state \<Rightarrow> unit outcome \<times> state" where
  "updateDOMAttributes node s =
     (case DOM (heap s node) of
        Overwritten d \<Rightarrow> (Throw (TypeError ''node.DOM.forEach''), s)
      | Array es \<Rightarrow>
          forEach (\<lambda>element s.
                     case Object_entries (attr (heap s node)) of
                       Inl e \<Rightarrow> (Throw e, s)
                     | Inr kvs \<Rightarrow> forEach (\<lambda>(k, v) s. setAttribute element k v s) kvs s) es s)"

subsection \<open>The reactive node's traps\<close>

text \<open>The set trap of the node's proxy: \<^verbatim>\<open>node.prop = value\<close>.\<close>

definition node_set :: "nat \<Rightarrow> string \<Rightarrow> jsval \<Rightarrow> state \<Rightarrow> bool outcome \<times> state" where
  "node_set n p v s =
     (if p = ''value'' then
        (case updateDOMValues n (store n ''value'' v s) of
           (Return u, s') \<Rightarrow> (Return True, s')
         | (Throw e, s') \<Rightarrow> (Throw e, s'))
      else if p = ''attr'' then
        (case updateDOMAttributes n (store n ''attr'' v s) of
           (Return u, s') \<Rightarrow> (Return True, s')
         | (Throw e, s') \<Rightarrow> (Throw e, s'))
      else (Return True, store n p v s))"

text \<open>The get trap of the node's proxy: \<^verbatim>\<open>node.prop\<close>.\<close>

definition node_get :: "nat \<Rightarrow> string \<Rightarrow> state \<Rightarrow> result" where
  "node_get n p s = (if p = ''$'' then Binder n else get_prop (heap s n) p)"

text \<open>
  An assignment \<^verbatim>\<open>node.prop = value\<close> goes through the set trap when \<^verbatim>\<open>node\<close> is the
  proxy, and is a plain store when \<^verbatim>\<open>node\<close> is the target itself.
\<close>

fun assign :: "reference \<Rightarrow> string \<Rightarrow> jsval \<Rightarrow> state \<Rightarrow> bool outcome \<times> state" where
  "assign (Proxy n) p v s = node_set n p v s"
| "assign (Raw n) p v s = (Return True, store n p v s)"

subsection \<open>Binding\<close>

text \<open>
  \<^verbatim>\<open>document.querySelectorAll\<close> is the host's: a parameter of the model, the answer of the
  page to each selector, either the SyntaxError for a string that is no selector or the
  matching elements in document order.
\<close>

type_synonym document = "string \<Rightarrow> error + nat list"

definition push :: "nat \<Rightarrow> nat \<Rightarrow> state \<Rightarrow> state" where
  "push n element s =
     s\<lparr>heap := (heap s)(n := (heap s n)
          \<lparr>DOM := (case DOM (heap s n) of Array es \<Rightarrow> Array (es @ [element]) | Overwritten d \<Rightarrow> Overwritten d)\<rparr>)\<rparr>"

definition addEventListener :: "nat \<Rightarrow> string \<Rightarrow> listener \<Rightarrow> state \<Rightarrow> state" where
  "addEventListener element ty l s =
     s\<lparr>elements := (elements s)
          (element := (elements s element)\<lparr>listeners := listeners (elements s element) @ [(ty, l)]\<rparr>)\<rparr>"

text \<open>The callback of \<^verbatim>\<open>elements.forEach\<close> in \<^verbatim>\<open>bindDOM\<close>.\<close>

definition bind_element :: "reference \<Rightarrow> nat \<Rightarrow> state \<Rightarrow> unit outcome \<times> state" where
  "bind_element node element s =
     (case DOM (heap s (address node)) of
        Overwritten d \<Rightarrow> (Throw (TypeError ''node.DOM.push''), s)
      | Array es \<Rightarrow>
          if element \<in> set es then (Return (), s)
          else (let s1 = push (address node) element s;
                    eventType = inferEventType (elements s1 element)
                in (Return (), addEventListener element eventType (Listener node element) s1)))"

definition bindDOM :: "document \<Rightarrow> string \<Rightarrow> reference \<Rightarrow> state \<Rightarrow> reference outcome \<times> state" where
  "bindDOM querySelectorAll selector node s =
     (case querySelectorAll selector of
        Inl e \<Rightarrow> (Throw e, s)
      | Inr els \<Rightarrow>
          (case forEach (bind_element node) els s of
             (Return u, s') \<Rightarrow> (Return node, s')
           | (Throw e, s') \<Rightarrow> (Throw e, s')))"

text \<open>
  Reading \<^verbatim>\<open>$\<close> from a node returns \<^verbatim>\<open>new Proxy({}, { get, apply })\<close>, closed over the
  node's target. Its get trap binds the property name that was read. A proxy can be
  called only if its target can: the \<^verbatim>\<open>apply\<close> trap of a proxy over an object that is
  not a function is never reached, and the call is a TypeError.
\<close>

datatype kind = OrdinaryObject | FunctionObject

fun IsCallable :: "kind \<Rightarrow> bool" where
  "IsCallable OrdinaryObject = False"
| "IsCallable FunctionObject = True"

definition binder_target :: kind where
  "binder_target = OrdinaryObject"

definition binder_get :: "document \<Rightarrow> nat \<Rightarrow> string \<Rightarrow> state \<Rightarrow> reference outcome \<times> state" where
  "binder_get querySelectorAll n domProp s = bindDOM querySelectorAll domProp (Raw n) s"

definition binder_apply :: "document \<Rightarrow> nat \<Rightarrow> string list \<Rightarrow> state \<Rightarrow> reference outcome \<times> state" where
  "binder_apply querySelectorAll n args s =
     (if IsCallable binder_target
      then bindDOM querySelectorAll (case args of [] \<Rightarrow> ''undefined'' | a # as \<Rightarrow> a) (Raw n) s
      else (Throw (TypeError ''$ is not a function''), s))"

subsection \<open>Events\<close>

definition run_listener :: "listener \<Rightarrow> state \<Rightarrow> state" where
  "run_listener l s =
     (case l of Listener node element \<Rightarrow>
        snd (assign node ''value'' (getElementValue (elements s element)) s))"

text \<open>
  Dispatching an event of type \<open>ty\<close> on an element runs the listeners registered on
  it for that type, in registration order; an exception in one is reported by the host
  and does not stop the others.
\<close>

definition dispatchEvent :: "string \<Rightarrow> nat \<Rightarrow> state \<Rightarrow> state" where
  "dispatchEvent ty element s =
     fold run_listener (map snd (filter (\<lambda>tl. fst tl = ty) (listeners (elements s element)))) s"

subsection \<open>The tree root\<close>

definition empty_target :: target where
  "empty_target = \<lparr>value' = Null, attr = Obj [], DOM = Array [], other = Map.empty\<rparr>"

definition createReactiveNode :: "state \<Rightarrow> reference \<times> state" where
  "createReactiveNode s =
     (Proxy (allocated s),
      s\<lparr>heap := (heap s)(allocated s := empty_target), allocated := Suc (allocated s)\<rparr>)"

definition root_get :: "state \<Rightarrow> string \<Rightarrow> result" where
  "root_get s p = (case root s p of Some r \<Rightarrow> r | None \<Rightarrow> inherited p)"

text \<open>The get trap of \<^verbatim>\<open>fx\<close>.\<close>

definition fx_get :: "string \<Rightarrow> state \<Rightarrow> result \<times> state" where
  "fx_get p s =
     (if \<not> truthy (root_get s p) then
        (case createReactiveNode s of
           (node, s') \<Rightarrow>
             (let s'' = s'\<lparr>root := (root s')(p \<mapsto> Node node)\<rparr> in (root_get s'' p, s'')))
      else (root_get s p, s))"

text \<open>The state when the script has been loaded into a page with the given elements.\<close>

definition loaded :: "(nat \<Rightarrow> element) \<Rightarrow> state" where
  "loaded els = \<lparr>root = Map.empty, heap = (\<lambda>n. empty_target), allocated = 0, elements = els\<rparr>"

subsection \<open>What a bind adds\<close>

text \<open>
  The elements a scan of \<open>els\<close> appends to the bound list \<open>es\<close>: the first occurrence
  of each element that \<open>es\<close> does not hold yet, in the order of \<open>els\<close>. The state
  after the scan has them appended to the node's list, and on each of them one more
  listener.
\<close>

fun additions :: "nat list \<Rightarrow> nat list \<Rightarrow> nat list" where
  "additions es [] = []"
| "additions es (x # xs) = (if x \<in> set es then additions es xs else x # additions (es @ [x]) xs)"

definition bound_state :: "reference \<Rightarrow> nat list \<Rightarrow> nat list \<Rightarrow> state \<Rightarrow> state" where
  "bound_state node es new s =
     s\<lparr>heap := (heap s)(address node := (heap s (address node))\<lparr>DOM := Array (es @ new)\<rparr>),
       elements := (\<lambda>x. if x \<in> set new
          then (elements s x)\<lparr>listeners := listeners (elements s x) @
                  [(inferEventType (elements s x), Listener node x)]\<rparr>
          else elements s x)\<rparr>"

text \<open>
  The state after \<^verbatim>\<open>updateDOMAttributes\<close> has scanned the bound elements \<open>es\<close> with
  pairs \<open>kvs\<close> whose keys the host accepts: on each element the pairs, each under the
  name the element gives its key, are laid over the attributes it had, a later pair of
  the list over an earlier one of the same name.
\<close>

definition named :: "element \<Rightarrow> (string \<times> string) list \<Rightarrow> (string \<times> string) list" where
  "named e kvs = map (\<lambda>kv. (attribute_name e (fst kv), snd kv)) kvs"

definition attributed :: "(string \<times> string) list \<Rightarrow> nat list \<Rightarrow> state \<Rightarrow> state" where
  "attributed kvs es s =
     s\<lparr>elements := (\<lambda>x. if x \<in> set es
         then (elements s x)\<lparr>attributes := attributes (elements s x) ++
                map_of (rev (named (elements s x) kvs))\<rparr>
         else elements s x)\<rparr>"

subsection \<open>What client code can reach\<close>

text \<open>
  The states of a page that has loaded the script: client code reads names from \<^verbatim>\<open>fx\<close>,
  assigns to properties of a node through its proxy or, holding the target that a bind
  returned, directly; it reads a selector from \<^verbatim>\<open>$\<close> or calls \<^verbatim>\<open>$\<close>; the user edits an
  element; the host dispatches an event. (Client code that reads the array out of a node
  and changes the array itself is not among the steps.)
\<close>

inductive reachable :: "state \<Rightarrow> bool" where
  start: "reachable (loaded els)"
| read_root: "reachable s \<Longrightarrow> reachable (snd (fx_get p s))"
| write_proxy: "reachable s \<Longrightarrow> reachable (snd (node_set n p v s))"
| write_raw: "reachable s \<Longrightarrow> reachable (store n p v s)"
| read_selector: "reachable s \<Longrightarrow> reachable (snd (binder_get querySelectorAll n domProp s))"
| call_selector: "reachable s \<Longrightarrow> reachable (snd (binder_apply querySelectorAll n args s))"
| edit: "reachable s \<Longrightarrow> reachable (s\<lparr>elements := (elements s)(e := (elements s e)\<lparr>props := ps\<rparr>)\<rparr>)"
| event: "reachable s \<Longrightarrow> reachable (dispatchEvent ty e s)"

subsection \<open>Three pages\<close>

text \<open>
  The pages are HTML documents in a host that tests attribute names as the DOM standard
  has it: a name is valid when it is not empty and holds no ASCII whitespace, no NUL and
  none of \<^verbatim>\<open>/\<close>, \<^verbatim>\<open>=\<close> and \<^verbatim>\<open>>\<close>.
\<close>

definition valid_attribute_local_name :: "string \<Rightarrow> bool" where
  "valid_attribute_local_name k =
     (k \<noteq> [] \<and>
      set k \<inter> {CHR 0x09, CHR 0x0A, CHR 0x0C, CHR 0x0D, CHR 0x20, CHR 0x00,
                 CHR ''/'', CHR ''='', CHR ''>''} = {})"

text \<open>
  A list of items \<^verbatim>\<open><li>old</li>\<close>, of which \<^verbatim>\<open>ul > li\<close> selects three: the page when the
  script has loaded, after \<^verbatim>\<open>fx.items\<close> has been read, and after
  \<^verbatim>\<open>fx.items.$["ul > li"]\<close> has bound the node to the three items.
\<close>

definition li :: element where
  "li = \<lparr>props = [''tagName'' \<mapsto> Str ''LI'', ''innerHTML'' \<mapsto> Str ''old''],
         attributes = Map.empty, listeners = [],
         html = True, valid_name = valid_attribute_local_name\<rparr>"

definition list_document :: document where
  "list_document selector =
     (if selector = [] then Inl (SyntaxError ''querySelectorAll'')
      else if selector = ''ul > li'' then Inr [0, 1, 2]
      else Inr [])"

definition list_page :: state where
  "list_page = loaded (\<lambda>n. li)"

definition items_page :: state where
  "items_page = snd (fx_get ''items'' list_page)"

definition list_bound :: state where
  "list_bound = snd (binder_get list_document 0 ''ul > li'' items_page)"

text \<open>The attribute map \<^verbatim>\<open>{ id: "x", class: "y" }\<close>.\<close>

definition id_class :: "(string \<times> string) list" where
  "id_class = [(''id'', ''x''), (''class'', ''y'')]"

text \<open>
  Two text inputs, the first holding the text \<^verbatim>\<open>new\<close> that the user has just typed, the
  second \<^verbatim>\<open>old\<close>: the page after \<^verbatim>\<open>fx.name\<close> has been read, and after \<^verbatim>\<open>fx.name.$.input\<close>
  has bound the node to both.
\<close>

definition text_input :: "string \<Rightarrow> element" where
  "text_input v =
     \<lparr>props = [''tagName'' \<mapsto> Str ''INPUT'', ''type'' \<mapsto> Str ''text'', ''value'' \<mapsto> Str v,
               ''checked'' \<mapsto> Boolean False],
      attributes = Map.empty, listeners = [],
      html = True, valid_name = valid_attribute_local_name\<rparr>"

definition form_document :: document where
  "form_document selector =
     (if selector = [] then Inl (SyntaxError ''querySelectorAll'')
      else if selector = ''input'' then Inr [0, 1]
      else Inr [])"

definition form_page :: state where
  "form_page = loaded (\<lambda>n. if n = 0 then text_input ''new'' else text_input ''old'')"

definition name_page :: state where
  "name_page = snd (fx_get ''name'' form_page)"

definition form_bound :: state where
  "form_bound = snd (binder_get form_document 0 ''input'' name_page)"

text \<open>
  A checked checkbox \<^verbatim>\<open><input type="checkbox" id="agree" checked>\<close>, with the node
  \<^verbatim>\<open>fx.agree\<close> bound to it by \<^verbatim>\<open>fx.agree.$["#agree"]\<close>.
\<close>

definition checkbox :: element where
  "checkbox =
     \<lparr>props = [''tagName'' \<mapsto> Str ''INPUT'', ''type'' \<mapsto> Str ''checkbox'', ''value'' \<mapsto> Str ''on'',
               ''checked'' \<mapsto> Boolean True],
      attributes = Map.empty, listeners = [],
      html = True, valid_name = valid_attribute_local_name\<rparr>"

definition checkbox_document :: document where
  "checkbox_document selector =
     (if selector = [] then Inl (SyntaxError ''querySelectorAll'')
      else if selector = ''#agree'' then Inr [0]
      else Inr [])"

definition checkbox_page :: state where
  "checkbox_page = loaded (\<lambda>n. checkbox)"

definition checkbox_bound :: state where
  "checkbox_bound = snd (binder_get checkbox_document 0 ''#agree'' (snd (fx_get ''agree'' checkbox_page)))"

subsection \<open>Invariants\<close>

definition lists_distinct :: "state \<Rightarrow> bool" where
  "lists_distinct s = (\<forall>n es. DOM (heap s n) = Array es \<longrightarrow> distinct es)"

text \<open>The nodes the root holds are at addresses that have been handed out.\<close>

definition root_allocated :: "state \<Rightarrow> bool" where
  "root_allocated s = (\<forall>q r. root s q = Some (Node r) \<longrightarrow> address r < allocated s)"

section \<open>Properties\<close>

subsection \<open>Auxiliary facts\<close>

lemmas inference_defs = inferBindingType_def inferEventType_def getElementValue_def prop_of_def

lemmas root_defs = fx_get_def root_get_def inherited_def Object_prototype_def
  createReactiveNode_def empty_target_def loaded_def

lemmas bind_defs = binder_get_def bindDOM_def bind_element_def push_def addEventListener_def

lemmas list_defs = li_def list_document_def list_page_def items_page_def list_bound_def

lemmas form_defs = text_input_def form_document_def form_page_def name_page_def form_bound_def

lemmas checkbox_defs = checkbox_def checkbox_document_def checkbox_page_def checkbox_bound_def

lemma inferEventType_listeners [simp]:
  "inferEventType (e\<lparr>listeners := ls\<rparr>) = inferEventType e"
  by (simp add: inferEventType_def prop_of_def)

lemma getElementValue_listeners [simp]:
  "getElementValue (e\<lparr>listeners := ls\<rparr>) = getElementValue e"
  by (simp add: inference_defs)

text \<open>
  The tag name is tested first: an \<^verbatim>\<open>INPUT\<close> element is bound by its value and listened to
  for \<^verbatim>\<open>input\<close>, whatever its type; the checked flag is the channel only of elements
  that are none of \<^verbatim>\<open>INPUT\<close>, \<^verbatim>\<open>TEXTAREA\<close> and \<^verbatim>\<open>SELECT\<close>.
\<close>

lemma input_is_value_bound:
  assumes "prop_of element ''tagName'' = Str ''INPUT''"
  shows "inferBindingType element = ''value''"
    and "inferEventType element = ''input''"
    and "getElementValue element = prop_of element ''value''"
  using assms by (simp_all add: inferBindingType_def inferEventType_def getElementValue_def)

lemma checked_channel_iff:
  "inferBindingType element = ''checked'' \<longleftrightarrow>
     prop_of element ''tagName'' \<noteq> Str ''INPUT'' \<and>
     prop_of element ''tagName'' \<noteq> Str ''TEXTAREA'' \<and>
     prop_of element ''tagName'' \<noteq> Str ''SELECT'' \<and>
     (prop_of element ''type'' = Str ''checkbox'' \<or> prop_of element ''type'' = Str ''radio'')"
  by (simp add: inferBindingType_def)

lemma additions_disjoint: "set (additions es els) \<inter> set es = {}"
proof (induction els arbitrary: es)
  case Nil
  then show ?case by simp
next
  case (Cons x xs)
  have "set (additions (es @ [x]) xs) \<inter> set (es @ [x]) = {}" by (rule Cons.IH)
  with Cons.IH [of es] show ?case by auto
qed

lemma additions_set: "set es \<union> set (additions es els) = set es \<union> set els"
proof (induction els arbitrary: es)
  case Nil
  then show ?case by simp
next
  case (Cons x xs)
  have "set (es @ [x]) \<union> set (additions (es @ [x]) xs) = set (es @ [x]) \<union> set xs"
    by (rule Cons.IH)
  with Cons.IH [of es] show ?case by auto
qed

lemma additions_distinct: "distinct es \<Longrightarrow> distinct (es @ additions es els)"
proof (induction els arbitrary: es)
  case Nil
  then show ?case by simp
next
  case (Cons x xs)
  show ?case
  proof (cases "x \<in> set es")
    case True
    with Cons show ?thesis by simp
  next
    case False
    with Cons.prems have "distinct (es @ [x])" by simp
    from Cons.IH [OF this] False show ?thesis by simp
  qed
qed

lemma additions_absorbed: "set els \<subseteq> set es \<Longrightarrow> additions es els = []"
  by (induction els arbitrary: es) auto

lemma bound_state_nil:
  assumes "DOM (heap s (address node)) = Array es"
  shows "bound_state node es [] s = s"
proof -
  have "(heap s (address node))\<lparr>DOM := Array es\<rparr> = heap s (address node)"
    by (simp add: assms [symmetric])
  then show ?thesis by (simp add: bound_state_def)
qed

text \<open>The scan of \<^verbatim>\<open>bindDOM\<close> never throws on a node that holds its array.\<close>

lemma forEach_bind_element:
  "DOM (heap s (address node)) = Array es \<Longrightarrow>
   forEach (bind_element node) els s = (Return (), bound_state node es (additions es els) s)"
proof (induction els arbitrary: s es)
  case Nil
  then show ?case by (simp add: bound_state_nil)
next
  case (Cons x xs)
  show ?case
  proof (cases "x \<in> set es")
    case True
    with Cons show ?thesis by (simp add: bind_element_def)
  next
    case False
    define s1 where
      "s1 = addEventListener x (inferEventType (elements s x)) (Listener node x) (push (address node) x s)"
    have step: "bind_element node x s = (Return (), s1)"
      using Cons.prems False by (simp add: bind_element_def s1_def push_def Let_def)
    have dom1: "DOM (heap s1 (address node)) = Array (es @ [x])"
      using Cons.prems by (simp add: s1_def push_def addEventListener_def)
    have notin: "x \<notin> set (additions (es @ [x]) xs)"
      using additions_disjoint [of "es @ [x]" xs] by auto
    have eq: "bound_state node (es @ [x]) (additions (es @ [x]) xs) s1 =
              bound_state node es (x # additions (es @ [x]) xs) s"
      using Cons.prems notin
      by (auto simp add: bound_state_def s1_def push_def addEventListener_def fun_eq_iff)
    show ?thesis
      using step Cons.IH [OF dom1] eq False by simp
  qed
qed

lemma bindDOM_bound:
  assumes "querySelectorAll selector = Inr els" and "DOM (heap s (address node)) = Array es"
  shows "bindDOM querySelectorAll selector node s =
         (Return node, bound_state node es (additions es els) s)"
  using assms by (simp add: bindDOM_def forEach_bind_element)

text \<open>
  A string that is no selector, the empty string for one, makes the host throw; the bind
  has no handler, so the exception is the bind's outcome and nothing has been bound.
\<close>

lemma bindDOM_invalid_selector:
  assumes "querySelectorAll selector = Inl e"
  shows "bindDOM querySelectorAll selector node s = (Throw e, s)"
  using assms by (simp add: bindDOM_def)

text \<open>
  The property-read shape \<^verbatim>\<open>node.$.name\<close> binds the selector \<^verbatim>\<open>name\<close> and evaluates to the
  node's target.
\<close>

lemma selector_read_binds:
  assumes "querySelectorAll domProp = Inr els" and "DOM (heap s n) = Array es"
  shows "binder_get querySelectorAll n domProp s =
         (Return (Raw n), bound_state (Raw n) es (additions es els) s)"
  using bindDOM_bound [of querySelectorAll domProp els s "Raw n" es] assms
  by (simp add: binder_get_def)

text \<open>The value synchronizer: it throws at the first bound element and changes nothing.\<close>

lemma forEach_updateDOM:
  "forEach (\<lambda>element s. updateDOM element (f s element) (g s) s) es s =
   (case es of [] \<Rightarrow> (Return (), s) | x # xs \<Rightarrow> (Throw (ReferenceError ''updateDOM''), s))"
  by (cases es) (simp_all add: updateDOM_def)

lemma updateDOMValues_state: "snd (updateDOMValues n s) = s"
  by (simp add: updateDOMValues_def forEach_updateDOM split: bound.splits list.splits)

lemma node_set_value_state: "snd (node_set n ''value'' v s) = store n ''value'' v s"
proof -
  obtain r t where rt: "updateDOMValues n (store n ''value'' v s) = (r, t)" by (cases "updateDOMValues n (store n ''value'' v s)")
  with updateDOMValues_state [of n "store n ''value'' v s"] have "t = store n ''value'' v s" by simp
  with rt show ?thesis by (cases r) (simp_all add: node_set_def)
qed

lemma run_listener_store:
  "run_listener (Listener node e) s = store (address node) ''value'' (getElementValue (elements s e)) s"
  by (cases node) (simp_all add: run_listener_def node_set_value_state)

lemma run_listener_elements: "elements (run_listener l s) = elements s"
  by (cases l) (simp add: run_listener_store store_def)

lemma fold_run_listener_elements: "elements (fold run_listener ls s) = elements s"
  by (induction ls arbitrary: s) (simp_all add: run_listener_elements)

lemma dispatchEvent_elements: "elements (dispatchEvent ty e s) = elements s"
  by (simp add: dispatchEvent_def fold_run_listener_elements)

lemma dispatchEvent_last:
  assumes "listeners (elements t e) = ls @ [(ty, Listener node e)]"
  shows "value' (heap (dispatchEvent ty e t) (address node)) = getElementValue (elements t e)"
proof -
  let ?before = "fold run_listener (map snd (filter (\<lambda>tl. fst tl = ty) ls)) t"
  have "dispatchEvent ty e t = run_listener (Listener node e) ?before"
    using assms by (simp add: dispatchEvent_def)
  moreover have "elements ?before = elements t" by (rule fold_run_listener_elements)
  ultimately show ?thesis by (simp add: run_listener_store store_def set_prop_def)
qed

lemma node_set_value_bound:
  assumes "DOM (heap s n) = Array (e # es)"
  shows "node_set n ''value'' v s =
         (Throw (ReferenceError ''updateDOM''), s\<lparr>heap := (heap s)(n := (heap s n)\<lparr>value' := v\<rparr>)\<rparr>)"
  using assms by (simp add: node_set_def store_def set_prop_def updateDOMValues_def updateDOM_def)

lemma list_bound_DOM: "DOM (heap list_bound 0) = Array [0, 1, 2]"
  by (simp add: list_defs bind_defs root_defs)

text \<open>A scan keeps whatever each run of its callback keeps, whatever the outcome.\<close>

lemma forEach_preserves:
  assumes "\<And>x s. P (snd (f x s)) = P s"
  shows "P (snd (forEach f xs s)) = P s"
proof (induction xs arbitrary: s)
  case Nil
  then show ?case by simp
next
  case (Cons x xs)
  obtain r s1 where step: "f x s = (r, s1)" by (cases "f x s")
  with assms [of x s] have p1: "P s1 = P s" by simp
  show ?case
  proof (cases r)
    case (Return u)
    with step Cons.IH [of s1] p1 show ?thesis by simp
  next
    case (Throw e)
    with step p1 show ?thesis by simp
  qed
qed

text \<open>The attribute synchronizer, on pairs whose keys the host accepts.\<close>

lemma attribute_name_attributes [simp]:
  "attribute_name (e\<lparr>attributes := a\<rparr>) k = attribute_name e k"
  by (simp add: attribute_name_def)

lemma named_attributes [simp]: "named (e\<lparr>attributes := a\<rparr>) kvs = named e kvs"
  by (simp add: named_def)

lemma forEach_setAttribute:
  assumes "\<forall>k \<in> fst ` set kvs. valid_name (elements s e) k"
  shows "forEach (\<lambda>(k, v) s. setAttribute e k v s) kvs s =
   (Return (), s\<lparr>elements := (elements s)
       (e := (elements s e)\<lparr>attributes := attributes (elements s e) ++
                map_of (rev (named (elements s e) kvs))\<rparr>)\<rparr>)"
  using assms
proof (induction kvs arbitrary: s)
  case Nil
  then show ?case by (simp add: named_def)
next
  case (Cons kv kvs)
  obtain k v where kv: "kv = (k, v)" by (cases kv)
  let ?a = "attribute_name (elements s e) k"
  let ?s1 = "s\<lparr>elements := (elements s)
       (e := (elements s e)\<lparr>attributes := (attributes (elements s e))(?a \<mapsto> v)\<rparr>)\<rparr>"
  from Cons.prems kv have ok: "valid_name (elements s e) k" by simp
  from Cons.prems have rest: "\<forall>k \<in> fst ` set kvs. valid_name (elements ?s1 e) k" by simp
  have m: "(attributes (elements s e))(?a \<mapsto> v) ++ map_of (rev (named (elements s e) kvs)) =
        attributes (elements s e) ++ map_of (rev (named (elements s e) kvs) @ [(?a, v)])"
    by (rule ext) (simp add: map_add_def split: option.splits)
  have n: "rev (named (elements s e) (kv # kvs)) = rev (named (elements s e) kvs) @ [(?a, v)]"
    by (simp add: named_def kv)
  have "forEach (\<lambda>(k, v) s. setAttribute e k v s) (kv # kvs) s =
        forEach (\<lambda>(k, v) s. setAttribute e k v s) kvs ?s1"
    using ok by (simp add: kv setAttribute_def)
  also have "\<dots> = (Return (), ?s1\<lparr>elements := (elements ?s1)
       (e := (elements ?s1 e)\<lparr>attributes := attributes (elements ?s1 e) ++
                map_of (rev (named (elements ?s1 e) kvs))\<rparr>)\<rparr>)"
    using rest by (rule Cons.IH)
  also have "\<dots> = (Return (), s\<lparr>elements := (elements s)
       (e := (elements s e)\<lparr>attributes := (attributes (elements s e))(?a \<mapsto> v) ++
                map_of (rev (named (elements s e) kvs))\<rparr>)\<rparr>)"
    by (simp del: map_of_append)
  also have "\<dots> = (Return (), s\<lparr>elements := (elements s)
       (e := (elements s e)\<lparr>attributes := attributes (elements s e) ++
                map_of (rev (named (elements s e) (kv # kvs)))\<rparr>)\<rparr>)"
    by (simp only: m n)
  finally show ?case .
qed

lemma forEach_attributes:
  assumes "attr (heap s n) = Obj kvs"
    and "\<forall>x \<in> set es. \<forall>k \<in> fst ` set kvs. valid_name (elements s x) k"
  shows "forEach (\<lambda>element s.
            case Object_entries (attr (heap s n)) of
              Inl e \<Rightarrow> (Throw e, s)
            | Inr kvs \<Rightarrow> forEach (\<lambda>(k, v) s. setAttribute element k v s) kvs s) es s =
         (Return (), attributed kvs es s)"
  using assms
proof (induction es arbitrary: s)
  case Nil
  then show ?case by (simp add: attributed_def)
next
  case (Cons x xs)
  let ?M = "\<lambda>y. map_of (rev (named (elements s y) kvs))"
  let ?s1 = "s\<lparr>elements := (elements s)
       (x := (elements s x)\<lparr>attributes := attributes (elements s x) ++ ?M x\<rparr>)\<rparr>"
  have a1: "attr (heap ?s1 n) = Obj kvs" using Cons.prems(1) by simp
  have v1: "\<forall>y \<in> set xs. \<forall>k \<in> fst ` set kvs. valid_name (elements ?s1 y) k"
    using Cons.prems(2) by simp
  have twice: "(m ++ ?M x) ++ ?M x = m ++ ?M x" for m :: "string \<rightharpoonup> string"
    by (rule ext) (simp add: map_add_def split: option.splits)
  let ?G = "\<lambda>y. if y \<in> set xs
         then (elements ?s1 y)\<lparr>attributes := attributes (elements ?s1 y) ++
                map_of (rev (named (elements ?s1 y) kvs))\<rparr>
         else elements ?s1 y"
  let ?F = "\<lambda>y. if y \<in> set (x # xs)
         then (elements s y)\<lparr>attributes := attributes (elements s y) ++ ?M y\<rparr>
         else elements s y"
  have GF: "?G = ?F"
    by (rule ext) (simp add: twice)
  have "attributed kvs xs ?s1 = s\<lparr>elements := ?G\<rparr>"
    unfolding attributed_def by simp
  also have "\<dots> = s\<lparr>elements := ?F\<rparr>"
    by (simp only: GF)
  also have "\<dots> = attributed kvs (x # xs) s"
    unfolding attributed_def by (rule refl)
  finally have eq: "attributed kvs xs ?s1 = attributed kvs (x # xs) s" .
  have head: "forEach (\<lambda>(k, v) s. setAttribute x k v s) kvs s = (Return (), ?s1)"
    using Cons.prems(2) by (intro forEach_setAttribute) simp
  show ?case
    using Cons.prems(1) Cons.IH [OF a1 v1] by (simp add: head eq del: set_simps)
qed

text \<open>
  A pair whose key the host rejects ends the scan at the first bound element, and the
  assignment, in the InvalidCharacterError.
\<close>

lemma forEach_setAttribute_invalid:
  assumes "\<forall>k \<in> fst ` set pre. valid_name (elements s e) k"
    and "\<not> valid_name (elements s e) k"
  shows "fst (forEach (\<lambda>(k, v) s. setAttribute e k v s) (pre @ (k, v) # post) s) =
         Throw (InvalidCharacterError k)"
  using assms
proof (induction pre arbitrary: s)
  case Nil
  then show ?case by (simp add: setAttribute_def)
next
  case (Cons kv pre)
  obtain k' v' where kv: "kv = (k', v')" by (cases kv)
  let ?s1 = "s\<lparr>elements := (elements s)
       (e := (elements s e)\<lparr>attributes := (attributes (elements s e))
          (attribute_name (elements s e) k' \<mapsto> v')\<rparr>)\<rparr>"
  from Cons.prems kv have ok: "valid_name (elements s e) k'" by simp
  have "forEach (\<lambda>(k, v) s. setAttribute e k v s) ((kv # pre) @ (k, v) # post) s =
        forEach (\<lambda>(k, v) s. setAttribute e k v s) (pre @ (k, v) # post) ?s1"
    using ok by (simp add: kv setAttribute_def)
  moreover have "fst (forEach (\<lambda>(k, v) s. setAttribute e k v s) (pre @ (k, v) # post) ?s1) =
        Throw (InvalidCharacterError k)"
    using Cons.prems by (intro Cons.IH) simp_all
  ultimately show ?case by simp
qed

lemma attr_push_invalid_name:
  assumes "DOM (heap s n) = Array (e # es)"
    and "\<forall>k \<in> fst ` set pre. valid_name (elements s e) k"
    and "\<not> valid_name (elements s e) k"
  shows "fst (node_set n ''attr'' (Obj (pre @ (k, v) # post)) s) = Throw (InvalidCharacterError k)"
proof -
  let ?s0 = "store n ''attr'' (Obj (pre @ (k, v) # post)) s"
  have els: "elements ?s0 = elements s" by (simp add: store_def)
  obtain r t where rt:
    "forEach (\<lambda>(k, v) s. setAttribute e k v s) (pre @ (k, v) # post) ?s0 = (r, t)"
    by (cases "forEach (\<lambda>(k, v) s. setAttribute e k v s) (pre @ (k, v) # post) ?s0")
  with forEach_setAttribute_invalid [of pre ?s0 e k v post] assms(2,3) els
  have r: "r = Throw (InvalidCharacterError k)" by simp
  show ?thesis
    using assms(1) rt r
    by (simp add: node_set_def updateDOMAttributes_def store_def set_prop_def)
qed

text \<open>Neither synchronizer touches a node: whatever the outcome, only elements change.\<close>

lemma updateDOMAttributes_preserves:
  assumes "\<And>e k v t. P (snd (setAttribute e k v t)) = P t"
  shows "P (snd (updateDOMAttributes n s)) = P s"
proof -
  let ?f = "\<lambda>element s.
              case Object_entries (attr (heap s n)) of
                Inl e \<Rightarrow> (Throw e, s)
              | Inr kvs \<Rightarrow> forEach (\<lambda>(k, v) s. setAttribute element k v s) kvs s"
  have inner: "P (snd (forEach (\<lambda>(k, v) s. setAttribute x k v s) kvs t)) = P t" for x kvs t
  proof (rule forEach_preserves)
    fix kv u
    show "P (snd ((case kv of (k, v) \<Rightarrow> \<lambda>s. setAttribute x k v s) u)) = P u"
      by (cases kv) (simp add: assms)
  qed
  have cb: "P (snd (?f x t)) = P t" for x t
    by (cases "Object_entries (attr (heap t n))") (simp_all add: inner)
  show ?thesis
    using forEach_preserves [of P ?f, OF cb]
    by (cases "DOM (heap s n)") (simp_all add: updateDOMAttributes_def)
qed

lemma updateDOMAttributes_heap: "heap (snd (updateDOMAttributes n s)) = heap s"
  by (rule updateDOMAttributes_preserves) (simp add: setAttribute_def)

lemma node_set_attr_heap: "heap (snd (node_set n ''attr'' v s)) = heap (store n ''attr'' v s)"
proof -
  obtain r t where rt: "updateDOMAttributes n (store n ''attr'' v s) = (r, t)"
    by (cases "updateDOMAttributes n (store n ''attr'' v s)")
  with updateDOMAttributes_heap [of n "store n ''attr'' v s"]
  have "heap t = heap (store n ''attr'' v s)" by simp
  with rt show ?thesis by (cases r) (simp_all add: node_set_def)
qed

lemma node_set_heap: "heap (snd (node_set n p v s)) = heap (store n p v s)"
proof (cases "p = ''value''")
  case True
  then show ?thesis by (simp add: node_set_value_state)
next
  case False
  then show ?thesis by (cases "p = ''attr''") (simp_all add: node_set_attr_heap, simp add: node_set_def)
qed

text \<open>Every step of client code keeps each bound list free of repetitions.\<close>

lemma store_DOM:
  "DOM (heap (store n p v s) m) = Array es \<Longrightarrow> DOM (heap s m) = Array es"
  by (auto simp add: store_def set_prop_def split: if_splits)

lemma store_distinct: "lists_distinct s \<Longrightarrow> lists_distinct (store n p v s)"
  unfolding lists_distinct_def using store_DOM by blast

lemma run_listener_distinct: "lists_distinct s \<Longrightarrow> lists_distinct (run_listener l s)"
  by (cases l) (simp add: run_listener_store store_distinct)

lemma fold_run_listener_distinct: "lists_distinct s \<Longrightarrow> lists_distinct (fold run_listener ls s)"
  by (induction ls arbitrary: s) (simp_all add: run_listener_distinct)

lemma forEach_bind_element_overwritten:
  "DOM (heap s (address node)) = Overwritten d \<Longrightarrow> snd (forEach (bind_element node) els s) = s"
  by (cases els) (simp_all add: bind_element_def)

lemma bindDOM_distinct:
  assumes "lists_distinct s"
  shows "lists_distinct (snd (bindDOM querySelectorAll selector node s))"
proof (cases "querySelectorAll selector")
  case (Inl err)
  with assms show ?thesis by (simp add: bindDOM_def)
next
  case (Inr els)
  show ?thesis
  proof (cases "DOM (heap s (address node))")
    case (Array es)
    from assms Array have "distinct es" by (simp add: lists_distinct_def)
    then have d: "distinct (es @ additions es els)" by (rule additions_distinct)
    have "lists_distinct (bound_state node es (additions es els) s)"
      unfolding lists_distinct_def
    proof (intro allI impI)
      fix m xs
      assume "DOM (heap (bound_state node es (additions es els) s) m) = Array xs"
      then show "distinct xs"
        using d assms by (cases "m = address node") (auto simp add: bound_state_def lists_distinct_def)
    qed
    with bindDOM_bound [of querySelectorAll selector els s node es] Inr Array show ?thesis by simp
  next
    case (Overwritten d)
    obtain r t where rt: "forEach (bind_element node) els s = (r, t)"
      by (cases "forEach (bind_element node) els s")
    with forEach_bind_element_overwritten [OF Overwritten, of els] have "t = s" by simp
    with rt Inr assms show ?thesis by (cases r) (simp_all add: bindDOM_def)
  qed
qed

lemma fx_get_distinct:
  assumes "lists_distinct s"
  shows "lists_distinct (snd (fx_get p s))"
proof (cases "truthy (root_get s p)")
  case True
  with assms show ?thesis by (simp add: fx_get_def)
next
  case False
  have "lists_distinct (s\<lparr>heap := (heap s)(allocated s := empty_target), allocated := Suc (allocated s),
          root := (root s)(p \<mapsto> Node (Proxy (allocated s)))\<rparr>)"
    using assms by (auto simp add: lists_distinct_def empty_target_def)
  with False show ?thesis by (simp add: fx_get_def createReactiveNode_def Let_def)
qed

lemma reachable_distinct: "reachable s \<Longrightarrow> lists_distinct s"
proof (induction rule: reachable.induct)
  case (start els)
  show ?case by (simp add: lists_distinct_def loaded_def empty_target_def)
next
  case (read_root s p)
  then show ?case by (simp add: fx_get_distinct)
next
  case (write_proxy s n p v)
  then have "lists_distinct (store n p v s)" by (simp add: store_distinct)
  then show ?case by (simp add: lists_distinct_def node_set_heap)
next
  case (write_raw s n p v)
  then show ?case by (simp add: store_distinct)
next
  case (read_selector s querySelectorAll n domProp)
  then show ?case by (simp add: binder_get_def bindDOM_distinct)
next
  case (call_selector s querySelectorAll n args)
  then show ?case by (simp add: binder_apply_def binder_target_def)
next
  case (edit s e ps)
  then show ?case by (simp add: lists_distinct_def)
next
  case (event s ty e)
  then show ?case by (simp add: dispatchEvent_def fold_run_listener_distinct)
qed

text \<open>No step but a root read touches the root or allocates.\<close>

lemma updateDOMAttributes_frame:
  "root (snd (updateDOMAttributes n s)) = root s"
  "allocated (snd (updateDOMAttributes n s)) = allocated s"
  by (rule updateDOMAttributes_preserves; simp add: setAttribute_def)+

lemma node_set_frame:
  "root (snd (node_set n p v s)) = root s"
  "allocated (snd (node_set n p v s)) = allocated s"
proof -
  obtain r t where rt: "updateDOMAttributes n (store n ''attr'' v s) = (r, t)"
    by (cases "updateDOMAttributes n (store n ''attr'' v s)")
  with updateDOMAttributes_frame [of n "store n ''attr'' v s"]
  have t: "root t = root s" "allocated t = allocated s" by (simp_all add: store_def)
  have attr: "root (snd (node_set n ''attr'' v s)) = root s \<and>
              allocated (snd (node_set n ''attr'' v s)) = allocated s"
    using rt t by (cases r) (simp_all add: node_set_def)
  have val: "root (snd (node_set n ''value'' v s)) = root s \<and>
              allocated (snd (node_set n ''value'' v s)) = allocated s"
    by (simp add: node_set_value_state store_def)
  have other: "p \<noteq> ''value'' \<Longrightarrow> p \<noteq> ''attr'' \<Longrightarrow>
      root (snd (node_set n p v s)) = root s \<and> allocated (snd (node_set n p v s)) = allocated s"
    by (simp add: node_set_def store_def)
  from attr val other show "root (snd (node_set n p v s)) = root s" by blast
  from attr val other show "allocated (snd (node_set n p v s)) = allocated s" by blast
qed

lemma bindDOM_frame:
  "root (snd (bindDOM querySelectorAll selector node s)) = root s"
  "allocated (snd (bindDOM querySelectorAll selector node s)) = allocated s"
proof -
  have b: "root (snd (bind_element node x t)) = root t"
    and c: "allocated (snd (bind_element node x t)) = allocated t" for x t
    by (cases "DOM (heap t (address node))";
        simp add: bind_element_def push_def addEventListener_def Let_def)+
  have "root (snd (bindDOM querySelectorAll selector node s)) = root s \<and>
        allocated (snd (bindDOM querySelectorAll selector node s)) = allocated s"
  proof (cases "querySelectorAll selector")
    case (Inl e)
    then show ?thesis by (simp add: bindDOM_def)
  next
    case (Inr els)
    obtain r t where rt: "forEach (bind_element node) els s = (r, t)"
      by (cases "forEach (bind_element node) els s")
    with forEach_preserves [of root "bind_element node" els s, OF b]
      forEach_preserves [of allocated "bind_element node" els s, OF c]
    have "root t = root s" "allocated t = allocated s" by simp_all
    with rt Inr show ?thesis by (cases r) (simp_all add: bindDOM_def)
  qed
  then show "root (snd (bindDOM querySelectorAll selector node s)) = root s"
    and "allocated (snd (bindDOM querySelectorAll selector node s)) = allocated s" by simp_all
qed

lemma dispatchEvent_frame:
  "root (dispatchEvent ty e s) = root s"
  "allocated (dispatchEvent ty e s) = allocated s"
proof -
  have "root (fold run_listener ls t) = root t \<and> allocated (fold run_listener ls t) = allocated t"
    for ls t
  proof (induction ls arbitrary: t)
    case Nil
    show ?case by simp
  next
    case (Cons l ls)
    have "root (run_listener l t) = root t \<and> allocated (run_listener l t) = allocated t"
      by (cases l) (simp add: run_listener_store store_def)
    with Cons.IH [of "run_listener l t"] show ?case by simp
  qed
  then show "root (dispatchEvent ty e s) = root s"
    and "allocated (dispatchEvent ty e s) = allocated s"
    by (simp_all add: dispatchEvent_def)
qed

lemma fx_get_root_allocated:
  assumes "root_allocated s"
  shows "root_allocated (snd (fx_get p s))"
proof (cases "truthy (root_get s p)")
  case True
  with assms show ?thesis by (simp add: fx_get_def)
next
  case False
  have "root_allocated (s\<lparr>heap := (heap s)(allocated s := empty_target), allocated := Suc (allocated s),
          root := (root s)(p \<mapsto> Node (Proxy (allocated s)))\<rparr>)"
    using assms by (auto simp add: root_allocated_def less_Suc_eq)
  with False show ?thesis by (simp add: fx_get_def createReactiveNode_def Let_def)
qed

lemma reachable_root_allocated: "reachable s \<Longrightarrow> root_allocated s"
proof (induction rule: reachable.induct)
  case (start els)
  show ?case by (simp add: root_allocated_def loaded_def)
next
  case (read_root s p)
  then show ?case by (simp add: fx_get_root_allocated)
next
  case (write_proxy s n p v)
  then show ?case by (simp add: root_allocated_def node_set_frame)
next
  case (write_raw s n p v)
  then show ?case by (simp add: root_allocated_def store_def)
next
  case (read_selector s querySelectorAll n domProp)
  then show ?case by (simp add: root_allocated_def binder_get_def bindDOM_frame)
next
  case (call_selector s querySelectorAll n args)
  then show ?case by (simp add: binder_apply_def binder_target_def)
next
  case (edit s e ps)
  then show ?case by (simp add: root_allocated_def)
next
  case (event s ty e)
  then show ?case by (simp add: root_allocated_def dispatchEvent_frame)
qed

text \<open>The address a root read allocates is held by no name of the root.\<close>

lemma created_node_is_fresh:
  assumes "reachable s" and "root s q = Some (Node r)"
  shows "address r \<noteq> allocated s"
proof -
  from reachable_root_allocated [OF assms(1)] assms(2) have "address r < allocated s"
    unfolding root_allocated_def by blast
  then show ?thesis by simp
qed

text \<open>Facts about the three pages.\<close>

lemma items_page_DOM: "DOM (heap items_page 0) = Array []"
  by (simp add: list_defs root_defs)

lemma list_bound_items: "list_bound = snd (bindDOM list_document ''ul > li'' (Raw 0) items_page)"
  by (simp add: list_bound_def binder_get_def)

lemma name_page_facts:
  "DOM (heap name_page 0) = Array []"
  "listeners (elements name_page 0) = []"
  "inferEventType (elements name_page 0) = ''input''"
  "snd (binder_get form_document 0 ''input'' name_page) = form_bound"
  "getElementValue (elements form_bound 0) = Str ''new''"
  "getElementValue (elements form_bound 1) = Str ''old''"
  by (simp_all add: form_defs root_defs bind_defs inference_defs)

subsection \<open>The tree root\<close>

text \<open>
  Claim C5, as the code has it. Reading from \<^verbatim>\<open>fx\<close> a name \<open>p\<close> that is not an own
  property of the root and not a member of \<^verbatim>\<open>Object.prototype\<close> creates a node at a fresh
  address, empty (value \<^verbatim>\<open>null\<close>, no attributes, no bound elements), stores it under
  \<open>p\<close> and returns it, leaving the elements and every other node as they were; reading
  \<open>p\<close> again returns the same node and changes nothing, and so does every read of
  \<open>p\<close> in any state in which \<open>p\<close> still holds that node. (In a state client code
  can reach, no name of the root holds the fresh address: \<open>created_node_is_fresh\<close>.)
\<close>

theorem root_read_memoized:
  assumes "root s p = None" and "p \<notin> set Object_prototype"
  shows "\<exists>s'. fx_get p s = (Node (Proxy (allocated s)), s') \<and>
           heap s' (allocated s) = empty_target \<and>
           allocated s' = Suc (allocated s) \<and>
           root s' = (root s)(p \<mapsto> Node (Proxy (allocated s))) \<and>
           elements s' = elements s \<and>
           (\<forall>m. m \<noteq> allocated s \<longrightarrow> heap s' m = heap s m) \<and>
           fx_get p s' = (Node (Proxy (allocated s)), s') \<and>
           (\<forall>t. root t p = Some (Node (Proxy (allocated s))) \<longrightarrow>
                fx_get p t = (Node (Proxy (allocated s)), t))"
  using assms by (simp add: fx_get_def root_get_def inherited_def createReactiveNode_def)

theorem root_read_memoized_witness:
  "root list_page ''items'' = None \<and> ''items'' \<notin> set Object_prototype \<and>
   fst (fx_get ''items'' list_page) = Node (Proxy 0) \<and>
   heap (snd (fx_get ''items'' list_page)) 0 = empty_target \<and>
   fx_get ''items'' (snd (fx_get ''items'' list_page)) = (Node (Proxy 0), snd (fx_get ''items'' list_page))"
proof -
  have h1: "root list_page ''items'' = None" by (simp add: list_defs root_defs)
  have h2: "''items'' \<notin> set Object_prototype" by (simp add: Object_prototype_def)
  have z: "allocated list_page = 0" by (simp add: list_defs root_defs)
  from root_read_memoized [OF h1 h2] z h1 h2 show ?thesis by auto
qed

text \<open>
  Claim C5 as stated, for every property name, fails at an inherited name: on a page
  that has just loaded the script, \<^verbatim>\<open>toString\<close> is not set on the root, and reading
  \<^verbatim>\<open>fx.toString\<close> returns the function inherited from \<^verbatim>\<open>Object.prototype\<close>, which is
  truthy: no node is created and nothing is stored.
\<close>

theorem root_read_inherited:
  "root list_page ''toString'' = None \<and>
   fx_get ''toString'' list_page = (Builtin ''toString'', list_page)"
  by (simp add: list_defs root_defs)

subsection \<open>Inference\<close>

text \<open>
  Claim C7. The value that \<^verbatim>\<open>getElementValue\<close> reads back from an element is the property
  of the element that \<^verbatim>\<open>inferBindingType\<close> names, the classification that
  \<^verbatim>\<open>updateDOMValues\<close> computes for the push; it is one of the four channels.
\<close>

theorem read_back_channel:
  "getElementValue element = prop_of element (inferBindingType element) \<and>
   inferBindingType element \<in> {''value'', ''selectedIndex'', ''checked'', ''innerHTML''}"
  by (simp add: getElementValue_def inferBindingType_def)

text \<open>
  Claim C3, evaluated at a checked checkbox. A checkbox is an \<^verbatim>\<open>INPUT\<close> element, and both
  inference functions test the tag name first: the binding type is \<^verbatim>\<open>value\<close>, not
  \<^verbatim>\<open>checked\<close>, the event is \<^verbatim>\<open>input\<close>, not \<^verbatim>\<open>change\<close>, the value read back is the
  element's \<^verbatim>\<open>value\<close> string and not its checked flag, the one listener a bind attaches is
  for \<^verbatim>\<open>input\<close>, and after a \<^verbatim>\<open>change\<close> event the node's value is still \<^verbatim>\<open>null\<close>.
\<close>

theorem checkbox_is_value_bound:
  "inferBindingType checkbox = ''value'' \<and>
   inferEventType checkbox = ''input'' \<and>
   getElementValue checkbox = Str ''on'' \<and>
   prop_of checkbox ''checked'' = Boolean True \<and>
   listeners (elements checkbox_bound 0) = [(''input'', Listener (Raw 0) 0)] \<and>
   node_get 0 ''value'' (dispatchEvent ''change'' 0 checkbox_bound) = Value Null"
  by (simp add: checkbox_defs bind_defs root_defs inference_defs dispatchEvent_def node_get_def get_prop_def)

subsection \<open>Binding\<close>

text \<open>
  Claim C4, the call shape. Calling \<^verbatim>\<open>node.$\<close> with a selector, whatever the node, the
  arguments, the page and the state, throws a TypeError and binds nothing: the proxy's
  target is not a function.
\<close>

theorem call_shape_throws:
  "binder_apply querySelectorAll n args s = (Throw (TypeError ''$ is not a function''), s)"
  by (simp add: binder_apply_def binder_target_def)

text \<open>
  Claim C6. In every state client code can reach, the bound list of a node holds no
  element twice. A bind on such a node returns the node it was given, appends to the list
  exactly the matched elements the list did not hold, each once, so that the list is free
  of repetitions again, and binding the same selector once more changes nothing at all.
\<close>

theorem bound_list_distinct:
  assumes "reachable s"
    and "DOM (heap s (address node)) = Array es"
    and "querySelectorAll selector = Inr els"
  shows "distinct es \<and>
         (\<exists>s'. bindDOM querySelectorAll selector node s = (Return node, s') \<and>
           DOM (heap s' (address node)) = Array (es @ additions es els) \<and>
           distinct (es @ additions es els) \<and>
           set (es @ additions es els) = set es \<union> set els \<and>
           bindDOM querySelectorAll selector node s' = (Return node, s'))"
proof -
  let ?s' = "bound_state node es (additions es els) s"
  from reachable_distinct [OF assms(1)] assms(2) have d: "distinct es"
    by (simp add: lists_distinct_def)
  have first: "bindDOM querySelectorAll selector node s = (Return node, ?s')"
    using assms(3,2) by (rule bindDOM_bound)
  have dom': "DOM (heap ?s' (address node)) = Array (es @ additions es els)"
    by (simp add: bound_state_def)
  have sets: "set (es @ additions es els) = set es \<union> set els"
    using additions_set [of es els] by simp
  then have "additions (es @ additions es els) els = []"
    by (intro additions_absorbed) auto
  with bindDOM_bound [of querySelectorAll selector els ?s' node "es @ additions es els"]
    assms(3) dom' bound_state_nil [OF dom']
  have second: "bindDOM querySelectorAll selector node ?s' = (Return node, ?s')" by simp
  from d first dom' additions_distinct [OF d] sets second show ?thesis by blast
qed

theorem bound_list_distinct_witness:
  "reachable items_page \<and>
   DOM (heap items_page (address (Raw 0))) = Array [] \<and>
   list_document ''ul > li'' = Inr [0, 1, 2] \<and>
   DOM (heap list_bound 0) = Array [0, 1, 2] \<and>
   bindDOM list_document ''ul > li'' (Raw 0) list_bound = (Return (Raw 0), list_bound)"
proof -
  have h1: "reachable items_page"
    unfolding items_page_def list_page_def by (intro reachable.read_root reachable.start)
  have h2: "DOM (heap items_page (address (Raw 0))) = Array []"
    using items_page_DOM by simp
  have h3: "list_document ''ul > li'' = Inr [0, 1, 2]" by (simp add: list_document_def)
  from bound_list_distinct [of items_page "Raw 0" "[]" list_document "''ul > li''" "[0, 1, 2]"] h1 h2 h3
  obtain s' where a: "bindDOM list_document ''ul > li'' (Raw 0) items_page = (Return (Raw 0), s')"
    and b: "DOM (heap s' (address (Raw 0))) = Array ([] @ additions [] [0, 1, 2])"
    and c: "bindDOM list_document ''ul > li'' (Raw 0) s' = (Return (Raw 0), s')"
    by blast
  from a have "s' = list_bound" by (simp add: list_bound_items)
  with b c h1 h2 h3 show ?thesis by simp
qed

text \<open>
  A selector that the page has no element for: the bind returns the node it was given
  without an exception and leaves the whole state as it was, so that no entry is added to
  the bound list and no listener is attached.
\<close>

lemma bind_without_match:
  assumes "querySelectorAll selector = Inr []"
  shows "bindDOM querySelectorAll selector node s = (Return node, s)"
  using assms by (simp add: bindDOM_def)

text \<open>
  Claim C9, evaluated at the empty selector on the list page, \<^verbatim>\<open>fx.items.$[""]\<close>. The
  empty string matches no element, and the host does not answer it with an empty list:
  \<^verbatim>\<open>querySelectorAll\<close> throws a SyntaxError, \<^verbatim>\<open>bindDOM\<close> has no handler, and the bind ends in
  that exception instead of returning the node. A selector of the page that matches
  nothing, \<^verbatim>\<open>table\<close>, is bound without an error.
\<close>

theorem bind_empty_selector_throws:
  "list_document [] = Inl (SyntaxError ''querySelectorAll'') \<and>
   binder_get list_document 0 [] list_bound = (Throw (SyntaxError ''querySelectorAll''), list_bound) \<and>
   list_document ''table'' = Inr [] \<and>
   binder_get list_document 0 ''table'' list_bound = (Return (Raw 0), list_bound)"
  by (simp add: binder_get_def bindDOM_def list_document_def)

subsection \<open>Node to DOM\<close>

text \<open>
  Claim C10. On a node whose bound list is empty, assigning any value to \<^verbatim>\<open>value\<close> and
  any value to \<^verbatim>\<open>attr\<close> stores it in the node and changes nothing else; the set trap
  returns \<^verbatim>\<open>true\<close> and nothing is thrown.
\<close>

theorem set_on_unbound_node:
  assumes "DOM (heap s n) = Array []"
  shows "node_set n ''value'' v s = (Return True, s\<lparr>heap := (heap s)(n := (heap s n)\<lparr>value' := v\<rparr>)\<rparr>) \<and>
         node_set n ''attr'' a s = (Return True, s\<lparr>heap := (heap s)(n := (heap s n)\<lparr>attr := a\<rparr>)\<rparr>)"
  using assms
  by (simp add: node_set_def store_def set_prop_def updateDOMValues_def updateDOMAttributes_def)

theorem set_on_unbound_node_witness:
  "DOM (heap items_page 0) = Array [] \<and>
   fst (node_set 0 ''value'' (Str ''X'') items_page) = Return True \<and>
   node_get 0 ''value'' (snd (node_set 0 ''value'' (Str ''X'') items_page)) = Value (Str ''X'') \<and>
   fst (node_set 0 ''attr'' Null items_page) = Return True \<and>
   node_get 0 ''attr'' (snd (node_set 0 ''attr'' Null items_page)) = Value Null"
  using items_page_DOM set_on_unbound_node [of items_page 0 "Str ''X''" Null]
  by (simp add: node_get_def get_prop_def)

text \<open>
  Claim C8, as the code has it. Assigning to \<^verbatim>\<open>attr\<close> of a node with the bound elements
  \<open>es\<close> a mapping all of whose keys the host accepts as attribute names on these
  elements stores the mapping, returns \<^verbatim>\<open>true\<close>, and lays the mapping's pairs over the
  attributes of every bound element, each pair under the name the element gives its key
  (the key itself, in ASCII lower case on an HTML element): such a name gets the mapping's
  value, an attribute of any other name stays as it was, on every element; elements that
  are not bound do not change, and of a bound element only the attributes do.
\<close>

theorem attr_push:
  assumes "DOM (heap s n) = Array es"
    and "\<forall>x \<in> set es. \<forall>k \<in> fst ` set kvs. valid_name (elements s x) k"
  shows "\<exists>s'. node_set n ''attr'' (Obj kvs) s = (Return True, s') \<and>
           heap s' = (heap s)(n := (heap s n)\<lparr>attr := Obj kvs\<rparr>) \<and>
           (\<forall>x. elements s' x =
              (if x \<in> set es
               then (elements s x)\<lparr>attributes := attributes (elements s x) ++
                      map_of (rev (named (elements s x) kvs))\<rparr>
               else elements s x)) \<and>
           (\<forall>x a. a \<notin> attribute_name (elements s x) ` fst ` set kvs \<longrightarrow>
              attributes (elements s' x) a = attributes (elements s x) a) \<and>
           (\<forall>x k v. x \<in> set es \<and> distinct (map fst (named (elements s x) kvs)) \<and>
                    (k, v) \<in> set kvs \<longrightarrow>
              attributes (elements s' x) (attribute_name (elements s x) k) = Some v)"
proof -
  let ?s0 = "store n ''attr'' (Obj kvs) s"
  let ?s' = "attributed kvs es ?s0"
  have dom0: "DOM (heap ?s0 n) = Array es" using assms(1) by (simp add: store_def set_prop_def)
  have attr0: "attr (heap ?s0 n) = Obj kvs" by (simp add: store_def set_prop_def)
  have valid0: "\<forall>x \<in> set es. \<forall>k \<in> fst ` set kvs. valid_name (elements ?s0 x) k"
    using assms(2) by (simp add: store_def)
  have run: "node_set n ''attr'' (Obj kvs) s = (Return True, ?s')"
    using dom0 forEach_attributes [OF attr0 valid0]
    by (simp add: node_set_def updateDOMAttributes_def)
  have heap': "heap ?s' = (heap s)(n := (heap s n)\<lparr>attr := Obj kvs\<rparr>)"
    by (simp add: attributed_def store_def set_prop_def)
  have els: "elements ?s' x =
              (if x \<in> set es
               then (elements s x)\<lparr>attributes := attributes (elements s x) ++
                      map_of (rev (named (elements s x) kvs))\<rparr>
               else elements s x)" for x
    by (simp add: attributed_def store_def)
  have names: "fst ` set (named e kvs) = attribute_name e ` fst ` set kvs" for e
    by (simp add: named_def image_image)
  have frame: "attributes (elements ?s' x) a = attributes (elements s x) a"
    if "a \<notin> attribute_name (elements s x) ` fst ` set kvs" for x a
  proof -
    from that names [of "elements s x"]
    have "map_of (rev (named (elements s x) kvs)) a = None"
      by (simp add: map_of_eq_None_iff)
    then show ?thesis by (simp add: els map_add_def)
  qed
  have hit: "attributes (elements ?s' x) (attribute_name (elements s x) k) = Some v"
    if "x \<in> set es \<and> distinct (map fst (named (elements s x) kvs)) \<and> (k, v) \<in> set kvs"
    for x k v
  proof -
    from that have "(attribute_name (elements s x) k, v) \<in> set (named (elements s x) kvs)"
      by (force simp add: named_def)
    with that have "map_of (rev (named (elements s x) kvs)) (attribute_name (elements s x) k) = Some v"
      by (simp add: rev_map [symmetric])
    with that show ?thesis by (simp add: els map_add_def)
  qed
  from run heap' els frame hit show ?thesis by blast
qed

theorem attr_push_witness:
  "DOM (heap list_bound 0) = Array [0, 1, 2] \<and>
   list_all (\<lambda>x. list_all (valid_name (elements list_bound x)) (map fst id_class)) [0, 1, 2] \<and>
   fst (node_set 0 ''attr'' (Obj id_class) list_bound) = Return True \<and>
   attributes (elements (snd (node_set 0 ''attr'' (Obj id_class) list_bound)) 1) ''id'' = Some ''x'' \<and>
   attributes (elements (snd (node_set 0 ''attr'' (Obj id_class) list_bound)) 1) ''class'' = Some ''y'' \<and>
   fst (node_set 0 ''attr'' (Obj [(''id'', ''z'')])
          (snd (node_set 0 ''attr'' (Obj id_class) list_bound))) = Return True \<and>
   attributes (elements (snd (node_set 0 ''attr'' (Obj [(''id'', ''z'')])
          (snd (node_set 0 ''attr'' (Obj id_class) list_bound)))) 1) ''id'' = Some ''z'' \<and>
   attributes (elements (snd (node_set 0 ''attr'' (Obj [(''id'', ''z'')])
          (snd (node_set 0 ''attr'' (Obj id_class) list_bound)))) 1) ''class'' = Some ''y''"
proof -
  define s1 where "s1 = snd (node_set 0 ''attr'' (Obj id_class) list_bound)"
  define s2 where "s2 = snd (node_set 0 ''attr'' (Obj [(''id'', ''z'')]) s1)"
  have host: "valid_name (elements list_bound x) = valid_attribute_local_name"
    and page: "html (elements list_bound x)" for x
    by (simp_all add: list_defs bind_defs root_defs)
  have low: "ascii_lowercase ''id'' = ''id''" "ascii_lowercase ''class'' = ''class''"
    by (simp_all add: ascii_lowercase_def)
  have ok: "valid_attribute_local_name ''id''" "valid_attribute_local_name ''class''"
    by (simp_all add: valid_attribute_local_name_def)
  have v1: "\<forall>x \<in> set [0, 1, 2]. \<forall>k \<in> fst ` set id_class. valid_name (elements list_bound x) k"
    by (simp add: host ok id_class_def)
  from attr_push [of list_bound 0 "[0, 1, 2]" id_class] list_bound_DOM v1
  obtain t1 where r1: "node_set 0 ''attr'' (Obj id_class) list_bound = (Return True, t1)"
    and h1: "heap t1 = (heap list_bound)(0 := (heap list_bound 0)\<lparr>attr := Obj id_class\<rparr>)"
    and e1: "\<forall>x. elements t1 x =
              (if x \<in> set [0, 1, 2]
               then (elements list_bound x)\<lparr>attributes := attributes (elements list_bound x) ++
                      map_of (rev (named (elements list_bound x) id_class))\<rparr>
               else elements list_bound x)"
    and hit1: "\<forall>x k v. x \<in> set [0, 1, 2] \<and>
                 distinct (map fst (named (elements list_bound x) id_class)) \<and>
                 (k, v) \<in> set id_class \<longrightarrow>
              attributes (elements t1 x) (attribute_name (elements list_bound x) k) = Some v"
    by blast
  from r1 have t1: "t1 = s1" by (simp add: s1_def)
  have id1: "attributes (elements s1 1) ''id'' = Some ''x''"
    using hit1 [rule_format, of 1 "''id''" "''x''"]
    by (simp add: t1 id_class_def named_def attribute_name_def page low)
  have class1: "attributes (elements s1 1) ''class'' = Some ''y''"
    using hit1 [rule_format, of 1 "''class''" "''y''"]
    by (simp add: t1 id_class_def named_def attribute_name_def page low)
  have dom1: "DOM (heap s1 0) = Array [0, 1, 2]"
    using h1 list_bound_DOM by (simp add: t1)
  have host1: "valid_name (elements s1 x) = valid_attribute_local_name"
    and page1: "html (elements s1 x)" for x
    using e1 [rule_format, of x] by (simp_all add: t1 host page)
  have v2: "\<forall>x \<in> set [0, 1, 2]. \<forall>k \<in> fst ` set [(''id'', ''z'')]. valid_name (elements s1 x) k"
    by (simp add: host1 ok)
  from attr_push [of s1 0 "[0, 1, 2]" "[(''id'', ''z'')]"] dom1 v2
  obtain t2 where r2: "node_set 0 ''attr'' (Obj [(''id'', ''z'')]) s1 = (Return True, t2)"
    and frame2: "\<forall>x a. a \<notin> attribute_name (elements s1 x) ` fst ` set [(''id'', ''z'')] \<longrightarrow>
              attributes (elements t2 x) a = attributes (elements s1 x) a"
    and hit2: "\<forall>x k v. x \<in> set [0, 1, 2] \<and>
                 distinct (map fst (named (elements s1 x) [(''id'', ''z'')])) \<and>
                 (k, v) \<in> set [(''id'', ''z'')] \<longrightarrow>
              attributes (elements t2 x) (attribute_name (elements s1 x) k) = Some v"
    by blast
  from r2 have t2: "t2 = s2" by (simp add: s2_def)
  have id2: "attributes (elements s2 1) ''id'' = Some ''z''"
    using hit2 [rule_format, of 1 "''id''" "''z''"]
    by (simp add: t2 named_def attribute_name_def page1 low)
  have class2: "attributes (elements s2 1) ''class'' = Some ''y''"
    using frame2 [rule_format, of "''class''" 1] class1
    by (simp add: t2 attribute_name_def page1 low)
  have hyp: "list_all (\<lambda>x. list_all (valid_name (elements list_bound x)) (map fst id_class)) [0, 1, 2]"
    by (simp add: host ok id_class_def)
  from r1 r2 id1 class1 id2 class2 list_bound_DOM hyp show ?thesis
    by (simp add: s1_def [symmetric] s2_def [symmetric] t1 t2)
qed

text \<open>
  Claim C8 as stated, for every mapping, fails on the list page in two ways. The key
  \<^verbatim>\<open>a b\<close> is no attribute name: \<^verbatim>\<open>fx.items.attr = { "a b": "x" }\<close> ends in the host's
  InvalidCharacterError at the first bound item, and nothing is applied. And on an HTML
  element a pair is applied under the lower-case form of its key: after
  \<^verbatim>\<open>fx.items.attr = { id: "a" }\<close>, the assignment \<^verbatim>\<open>fx.items.attr = { ID: "b" }\<close> changes
  the attribute \<^verbatim>\<open>id\<close>, a key the current mapping lacks, to \<^verbatim>\<open>b\<close>, and sets no attribute
  \<^verbatim>\<open>ID\<close>.
\<close>

theorem attr_push_host_names:
  "fst (node_set 0 ''attr'' (Obj [(''a b'', ''x'')]) list_bound) =
     Throw (InvalidCharacterError ''a b'') \<and>
   attributes (elements (snd (node_set 0 ''attr'' (Obj [(''a b'', ''x'')]) list_bound)) 0) ''a b'' = None \<and>
   fst (node_set 0 ''attr'' (Obj [(''id'', ''a'')]) list_bound) = Return True \<and>
   attributes (elements (snd (node_set 0 ''attr'' (Obj [(''id'', ''a'')]) list_bound)) 1) ''id'' = Some ''a'' \<and>
   fst (node_set 0 ''attr'' (Obj [(''ID'', ''b'')])
          (snd (node_set 0 ''attr'' (Obj [(''id'', ''a'')]) list_bound))) = Return True \<and>
   attributes (elements (snd (node_set 0 ''attr'' (Obj [(''ID'', ''b'')])
          (snd (node_set 0 ''attr'' (Obj [(''id'', ''a'')]) list_bound)))) 1) ''id'' = Some ''b'' \<and>
   attributes (elements (snd (node_set 0 ''attr'' (Obj [(''ID'', ''b'')])
          (snd (node_set 0 ''attr'' (Obj [(''id'', ''a'')]) list_bound)))) 1) ''ID'' = None"
  by (simp add: list_defs bind_defs root_defs node_set_def updateDOMAttributes_def setAttribute_def
      store_def set_prop_def attribute_name_def ascii_lowercase_def valid_attribute_local_name_def)

text \<open>
  Claim C1, evaluated on the list page: \<^verbatim>\<open>fx.items\<close> is bound to three list items and
  \<^verbatim>\<open>fx.items.value = "X"\<close> is executed. The value is stored in the node, and the
  assignment ends in the ReferenceError of the call of \<^verbatim>\<open>updateDOM\<close>: none of the three
  items holds \<^verbatim>\<open>X\<close>, each reads back its old content.
\<close>

theorem value_push_throws:
  "node_set 0 ''value'' (Str ''X'') list_bound =
     (Throw (ReferenceError ''updateDOM''),
      list_bound\<lparr>heap := (heap list_bound)(0 := (heap list_bound 0)\<lparr>value' := Str ''X''\<rparr>)\<rparr>) \<and>
   DOM (heap list_bound 0) = Array [0, 1, 2] \<and>
   getElementValue (elements (snd (node_set 0 ''value'' (Str ''X'') list_bound)) 0) = Str ''old'' \<and>
   getElementValue (elements (snd (node_set 0 ''value'' (Str ''X'') list_bound)) 1) = Str ''old'' \<and>
   getElementValue (elements (snd (node_set 0 ''value'' (Str ''X'') list_bound)) 2) = Str ''old''"
proof -
  have a: "node_set 0 ''value'' (Str ''X'') list_bound =
     (Throw (ReferenceError ''updateDOM''),
      list_bound\<lparr>heap := (heap list_bound)(0 := (heap list_bound 0)\<lparr>value' := Str ''X''\<rparr>)\<rparr>)"
    using list_bound_DOM by (rule node_set_value_bound)
  have b: "getElementValue (elements list_bound k) = Str ''old''" for k
    by (simp add: list_defs bind_defs root_defs inference_defs)
  from a b list_bound_DOM show ?thesis by simp
qed

subsection \<open>DOM to node\<close>

text \<open>
  Claim C2, as the code has it. A bind attaches to each element it newly binds one
  listener, for the event type inferred at that moment, and the listener closes over the
  proxy's target, not over the proxy. When the event fires, in any later state in which
  the element still has these listeners, the listener stores the element's current value
  in the node by a plain assignment to the target: reading \<^verbatim>\<open>value\<close> from the node then
  yields it, and no element has been written.
\<close>

theorem listener_stores_value:
  assumes "querySelectorAll selector = Inr els"
    and "DOM (heap s n) = Array es"
    and "e \<in> set els"
    and "e \<notin> set es"
  shows "\<exists>s'. binder_get querySelectorAll n selector s = (Return (Raw n), s') \<and>
           listeners (elements s' e) =
             listeners (elements s e) @ [(inferEventType (elements s e), Listener (Raw n) e)] \<and>
           (\<forall>t. listeners (elements t e) = listeners (elements s' e) \<longrightarrow>
              node_get n ''value'' (dispatchEvent (inferEventType (elements s e)) e t) =
                Value (getElementValue (elements t e)) \<and>
              elements (dispatchEvent (inferEventType (elements s e)) e t) = elements t)"
proof -
  let ?s' = "bound_state (Raw n) es (additions es els) s"
  have bind: "binder_get querySelectorAll n selector s = (Return (Raw n), ?s')"
    using bindDOM_bound [of querySelectorAll selector els s "Raw n" es] assms(1,2)
    by (simp add: binder_get_def)
  have "e \<in> set (additions es els)"
    using additions_set [of es els] assms(3,4) by auto
  then have ls: "listeners (elements ?s' e) =
             listeners (elements s e) @ [(inferEventType (elements s e), Listener (Raw n) e)]"
    by (simp add: bound_state_def)
  have later: "node_get n ''value'' (dispatchEvent (inferEventType (elements s e)) e t) =
                Value (getElementValue (elements t e)) \<and>
              elements (dispatchEvent (inferEventType (elements s e)) e t) = elements t"
    if "listeners (elements t e) = listeners (elements ?s' e)" for t
  proof -
    from that ls have "listeners (elements t e) =
        listeners (elements s e) @ [(inferEventType (elements s e), Listener (Raw n) e)]" by simp
    from dispatchEvent_last [OF this] show ?thesis
      by (simp add: node_get_def get_prop_def dispatchEvent_elements)
  qed
  from bind ls later show ?thesis by blast
qed

theorem listener_stores_value_witness:
  "form_document ''input'' = Inr [0, 1] \<and>
   DOM (heap name_page 0) = Array [] \<and>
   (0::nat) \<in> set [0, 1] \<and>
   (0::nat) \<notin> set [] \<and>
   listeners (elements form_bound 0) = [(''input'', Listener (Raw 0) 0)] \<and>
   node_get 0 ''value'' (dispatchEvent ''input'' 0 form_bound) = Value (Str ''new'') \<and>
   elements (dispatchEvent ''input'' 0 form_bound) = elements form_bound"
proof -
  have h1: "form_document ''input'' = Inr [0, 1]" by (simp add: form_document_def)
  from listener_stores_value [of form_document "''input''" "[0, 1]" name_page 0 "[]" 0]
    h1 name_page_facts(1)
  obtain s' where a: "binder_get form_document 0 ''input'' name_page = (Return (Raw 0), s')"
    and b: "listeners (elements s' 0) =
             listeners (elements name_page 0) @ [(inferEventType (elements name_page 0), Listener (Raw 0) 0)]"
    and c: "\<forall>t. listeners (elements t 0) = listeners (elements s' 0) \<longrightarrow>
              node_get 0 ''value'' (dispatchEvent (inferEventType (elements name_page 0)) 0 t) =
                Value (getElementValue (elements t 0)) \<and>
              elements (dispatchEvent (inferEventType (elements name_page 0)) 0 t) = elements t"
    by auto
  from a name_page_facts(4) have s': "s' = form_bound" by simp
  from c [rule_format, of form_bound] b h1 show ?thesis
    by (simp add: s' name_page_facts)
qed

text \<open>
  Claim C2 as stated fails on the form page: \<^verbatim>\<open>fx.name\<close> is bound to two text inputs,
  the user has typed \<^verbatim>\<open>new\<close> into the first and its \<^verbatim>\<open>input\<close> event fires. The listener is
  the one over the target; the node's value becomes \<^verbatim>\<open>new\<close>, and the second input, bound
  to the same node, still shows \<^verbatim>\<open>old\<close>.
\<close>

theorem listener_bypasses_setter:
  "listeners (elements form_bound 0) = [(''input'', Listener (Raw 0) 0)] \<and>
   DOM (heap form_bound 0) = Array [0, 1] \<and>
   node_get 0 ''value'' (dispatchEvent ''input'' 0 form_bound) = Value (Str ''new'') \<and>
   getElementValue (elements (dispatchEvent ''input'' 0 form_bound) 1) = Str ''old''"
  by (simp add: form_defs bind_defs root_defs inference_defs dispatchEvent_def node_get_def get_prop_def
      run_listener_def store_def set_prop_def)

end
